theory Spec2Isabelle
  imports Complex_Main "HOL-Library.Multiset"
begin

section \<open>Python numbers used by the notebook\<close>

text \<open>
  The notebook computes its split sizes as \<^verbatim>\<open>int(0.6 * len(dspy_dataset))\<close> and
  \<^verbatim>\<open>int(0.2 * len(dspy_dataset))\<close>: an integer is converted to a double, multiplied by a
  double constant and truncated. The doubles are modelled exactly. A non-negative double is
  a pair \<open>(m, e)\<close> standing for \<open>m * 2 ^ e\<close>; every operation rounds its exact result to 53
  significant bits, ties to even, as IEEE 754 binary64 does. Only non-negative values far
  from the subnormal and the overflow range occur (a constant below one times a list
  length), so neither signs nor special values are represented.
\<close>

text \<open>Python's \<^verbatim>\<open>int.bit_length\<close>.\<close>

fun bit_length :: "nat \<Rightarrow> nat" where
  "bit_length n = (if n = 0 then 0 else Suc (bit_length (n div 2)))"

declare bit_length.simps [simp del]

text \<open>\<open>N / 2 ^ s\<close> rounded to the nearest integer, ties to the even one.\<close>

definition round_half_even :: "nat \<Rightarrow> nat \<Rightarrow> nat" where
  "round_half_even N s =
     (let q = N div 2 ^ s; r = N mod 2 ^ s
      in if 2 ^ s < 2 * r \<or> (2 * r = 2 ^ s \<and> odd q) then q + 1 else q)"

type_synonym pyfloat = "nat \<times> int"

text \<open>The exact value \<open>N * 2 ^ e\<close> rounded to a double.\<close>

definition round53 :: "nat \<times> int \<Rightarrow> pyfloat" where
  "round53 x = (case x of (N, e) \<Rightarrow>
     let s = bit_length N - 53 in (round_half_even N s, e + int s))"

text \<open>\<^verbatim>\<open>float(n)\<close>, the conversion Python applies to the integer operand of \<^verbatim>\<open>0.6 * n\<close>.\<close>

definition float_of_nat :: "nat \<Rightarrow> pyfloat" where
  "float_of_nat n = round53 (n, 0)"

definition float_mul :: "pyfloat \<Rightarrow> pyfloat \<Rightarrow> pyfloat" where
  "float_mul x y = round53 (fst x * fst y, snd x + snd y)"

text \<open>\<^verbatim>\<open>int(x)\<close> truncates towards zero.\<close>

definition py_int :: "pyfloat \<Rightarrow> nat" where
  "py_int x = (case x of (m, e) \<Rightarrow>
     if 0 \<le> e then m * 2 ^ nat e else m div 2 ^ nat (- e))"

text \<open>\<^verbatim>\<open>round(x)\<close> with one argument: the nearest integer, ties to even.\<close>

definition py_round :: "pyfloat \<Rightarrow> nat" where
  "py_round x = (case x of (m, e) \<Rightarrow>
     if 0 \<le> e then m * 2 ^ nat e else round_half_even m (nat (- e)))"

text \<open>
  The literals \<^verbatim>\<open>0.6\<close>, \<^verbatim>\<open>0.2\<close> and \<^verbatim>\<open>0.1\<close> denote the doubles
  \<^verbatim>\<open>0x1.3333333333333p-1\<close>, \<^verbatim>\<open>0x1.999999999999ap-3\<close> and \<^verbatim>\<open>0x1.999999999999ap-4\<close>.
\<close>

definition float_0_6 :: pyfloat where
  "float_0_6 = (5404319552844595, - 53)"

definition float_0_2 :: pyfloat where
  "float_0_2 = (7205759403792794, - 55)"

definition float_0_1 :: pyfloat where
  "float_0_1 = (7205759403792794, - 56)"

text \<open>Slicing \<^verbatim>\<open>xs[i:j]\<close> with non-negative bounds; bounds past the end are clipped.\<close>

definition py_slice :: "'a list \<Rightarrow> nat \<Rightarrow> nat \<Rightarrow> 'a list" where
  "py_slice xs i j = drop i (take j xs)"


section \<open>Rows and examples\<close>

text \<open>
  A row of the data frame built from the loaded dataset: the question, the answer key and
  the two parallel lists \<^verbatim>\<open>choices["label"]\<close> and \<^verbatim>\<open>choices["text"]\<close>.
\<close>

record row =
  question :: string
  answer_key :: string
  choice_labels :: "string list"
  choice_texts :: "string list"

text \<open>\<^verbatim>\<open>dspy.Example(riddle=riddle, answer=answer).with_inputs("riddle")\<close>.\<close>

record example =
  riddle :: string
  answer :: string

text \<open>
  The body of the loop that builds one example: the choices are appended as
  \<^verbatim>\<open>f"{label}. {choice}, "\<close>, the last two characters are cut off with \<^verbatim>\<open>[:-2]\<close> and the
  riddle is \<^verbatim>\<open>f"{question}: {answer_choices}"\<close>.
\<close>

definition answer_choices :: "row \<Rightarrow> string" where
  "answer_choices r =
     (let acc = foldl (\<lambda>acc (label, choice). acc @ label @ ''. '' @ choice @ '', '')
                  [] (zip (choice_labels r) (choice_texts r))
      in take (length acc - 2) acc)"

definition make_example :: "row \<Rightarrow> example" where
  "make_example r =
     \<lparr>riddle = question r @ '': '' @ answer_choices r, answer = answer_key r\<rparr>"

definition create_dataset :: "row list \<Rightarrow> example list" where
  "create_dataset rows = foldl (\<lambda>acc r. acc @ [make_example r]) [] rows"


section \<open>The notebook\<close>

text \<open>
  The notebook calls three library operations whose code is not part of it. They are
  parameters of the model: \<^verbatim>\<open>random.seed\<close> yields the state of Python's global generator,
  \<^verbatim>\<open>random.shuffle\<close> reorders a list in place and advances that state, and
  \<^verbatim>\<open>DataFrame.sample\<close> takes the fraction, the \<^verbatim>\<open>random_state\<close> and the rows.
\<close>

record 'g library =
  random_seed :: "nat \<Rightarrow> 'g"
  random_shuffle :: "'g \<Rightarrow> example list \<Rightarrow> example list \<times> 'g"
  df_sample :: "pyfloat \<Rightarrow> nat \<Rightarrow> row list \<Rightarrow> row list"

text \<open>The global variables of the notebook that the harness reads and writes.\<close>

record 'g notebook =
  rng :: 'g
  dataset :: "row list"
  dspy_dataset :: "example list"
  train :: "example list"
  val :: "example list"
  test :: "example list"

definition SEED :: nat where
  "SEED = 1208"

text \<open>\<^verbatim>\<open>random.seed(SEED)\<close>\<close>

definition cell_seed :: "'g library \<Rightarrow> 'g notebook \<Rightarrow> 'g notebook" where
  "cell_seed lib st = st\<lparr>rng := random_seed lib SEED\<rparr>"

text \<open>\<^verbatim>\<open>dataset = dataset.sample(frac=0.1, random_state=SEED)\<close>\<close>

definition cell_sample :: "'g library \<Rightarrow> 'g notebook \<Rightarrow> 'g notebook" where
  "cell_sample lib st = st\<lparr>dataset := df_sample lib float_0_1 SEED (dataset st)\<rparr>"

text \<open>The loop over \<^verbatim>\<open>dataset.itertuples()\<close> that fills \<^verbatim>\<open>dspy_dataset\<close>.\<close>

definition cell_create :: "'g notebook \<Rightarrow> 'g notebook" where
  "cell_create st = st\<lparr>dspy_dataset := create_dataset (dataset st)\<rparr>"

text \<open>\<^verbatim>\<open>random.shuffle(dspy_dataset)\<close>\<close>

definition cell_shuffle :: "'g library \<Rightarrow> 'g notebook \<Rightarrow> 'g notebook" where
  "cell_shuffle lib st =
     (case random_shuffle lib (rng st) (dspy_dataset st) of
        (xs, g) \<Rightarrow> st\<lparr>rng := g, dspy_dataset := xs\<rparr>)"

definition train_size :: "nat \<Rightarrow> nat" where
  "train_size n = py_int (float_mul float_0_6 (float_of_nat n))"

definition val_size :: "nat \<Rightarrow> nat" where
  "val_size n = py_int (float_mul float_0_2 (float_of_nat n))"

text \<open>
  \<^verbatim>\<open>train = dspy_dataset[:train_size]\<close>,
  \<^verbatim>\<open>val = dspy_dataset[train_size : train_size + val_size]\<close>,
  \<^verbatim>\<open>test = dspy_dataset[train_size + val_size :]\<close>
\<close>

definition cell_split :: "'g notebook \<Rightarrow> 'g notebook" where
  "cell_split st =
     (let ds = dspy_dataset st;
          a = train_size (length ds);
          b = val_size (length ds)
      in st\<lparr>train := take a ds, val := py_slice ds a (a + b), test := drop (a + b) ds\<rparr>)"

text \<open>
  The partitioner: seeding, shuffling and splitting, applied to whatever
  \<^verbatim>\<open>dspy_dataset\<close> holds.
\<close>

definition partitioner :: "'g library \<Rightarrow> 'g notebook \<Rightarrow> 'g notebook" where
  "partitioner lib st = cell_split (cell_shuffle lib (cell_seed lib st))"

text \<open>
  The harness in the order of the notebook's cells, from the loaded data frame in
  \<^verbatim>\<open>dataset\<close>: seed, downsample, build the examples, shuffle, split.
\<close>

definition harness :: "'g library \<Rightarrow> 'g notebook \<Rightarrow> 'g notebook" where
  "harness lib st =
     cell_split (cell_shuffle lib (cell_create (cell_sample lib (cell_seed lib st))))"

text \<open>What the library promises of a shuffle: the result is a rearrangement.\<close>

definition shuffle_permutes :: "'g library \<Rightarrow> bool" where
  "shuffle_permutes lib = (\<forall>g xs. mset (fst (random_shuffle lib g xs)) = mset xs)"


section \<open>A concrete library and concrete notebooks\<close>

text \<open>
  A deterministic library with a counter as generator state: shuffling reverses the list,
  sampling keeps a prefix of the rounded size.
\<close>

definition counter_library :: "nat library" where
  "counter_library =
     \<lparr>random_seed = (\<lambda>s. s),
      random_shuffle = (\<lambda>g xs. (rev xs, Suc g)),
      df_sample = (\<lambda>f s rows. take (py_round (float_mul f (float_of_nat (length rows)))) rows)\<rparr>"

definition ex :: "string \<Rightarrow> string \<Rightarrow> example" where
  "ex r a = \<lparr>riddle = r, answer = a\<rparr>"

definition ten_examples :: "example list" where
  "ten_examples =
     [ex ''r0'' ''A'', ex ''r1'' ''B'', ex ''r2'' ''C'', ex ''r3'' ''D'', ex ''r4'' ''E'',
      ex ''r5'' ''A'', ex ''r6'' ''B'', ex ''r7'' ''C'', ex ''r8'' ''D'', ex ''r9'' ''E'']"

text \<open>A dataset in which the same example occurs twice.\<close>

definition twin_examples :: "example list" where
  "twin_examples = [ex ''r0'' ''A'', ex ''r0'' ''A'']"

text \<open>A row of the data frame, and a data frame of twenty rows.\<close>

definition piano_row :: row where
  "piano_row =
     \<lparr>question = ''What has keys but no locks?'', answer_key = ''B'',
      choice_labels = [''A'', ''B''], choice_texts = [''door'', ''piano'']\<rparr>"

definition twenty_rows :: "row list" where
  "twenty_rows = replicate 20 piano_row"

definition notebook_with :: "nat \<Rightarrow> row list \<Rightarrow> example list \<Rightarrow> nat notebook" where
  "notebook_with g rows xs =
     \<lparr>rng = g, dataset = rows, dspy_dataset = xs, train = [], val = [], test = []\<rparr>"


section \<open>The evaluator\<close>

text \<open>
  The notebook scores a pipeline by calling \<^verbatim>\<open>dspy.Evaluate\<close> with the metric
  \<^verbatim>\<open>dspy.evaluate.metrics.answer_exact_match\<close>; neither is defined in the notebook. The
  definitions of this section follow the specification's description of the prediction
  pipeline and of the evaluator instead.
\<close>

text \<open>
  Modelled from the spec: the failure of a pipeline call whose model output does not parse
  into the declared schema, named \<^verbatim>\<open>ParseError\<close>/\<^verbatim>\<open>SchemaViolation\<close> there. The code that
  parses model output is inside the library.
\<close>

datatype failure = ParseError | SchemaViolation

text \<open>
  Modelled from the spec: the result of \<^verbatim>\<open>answer(input_text)\<close>, a rationale and a predicted
  label. The library's prediction object is missing from the sources.
\<close>

record prediction =
  rationale :: string
  predicted_label :: string

text \<open>
  Modelled from the spec: a prediction pipeline is its one operation
  \<^verbatim>\<open>answer(input_text) -> {rationale, predicted_label}\<close>, which may fail. The module
  \<^verbatim>\<open>dspy.ChainOfThought\<close> behind it is missing from the sources.
\<close>

type_synonym pipeline = "string \<Rightarrow> failure + prediction"

text \<open>
  Modelled from the spec: a metric compares a predicted label with an expected label; the
  exact-match metric is true iff the two labels are identical strings. The library function
  \<^verbatim>\<open>answer_exact_match\<close> is missing from the sources.
\<close>

type_synonym metric = "string \<Rightarrow> string \<Rightarrow> bool"

definition exact_match :: metric where
  "exact_match predicted expected = (predicted = expected)"

text \<open>
  Modelled from the spec: the evaluator's loop, missing from the sources (it is inside
  \<^verbatim>\<open>dspy.Evaluate\<close>). For every example of the subset it invokes the pipeline's
  \<^verbatim>\<open>answer\<close>, compares the predicted with the expected label using the metric and keeps a
  running count of the correct ones; a call that fails is an incorrect prediction and the
  loop goes on. The second component records the inputs the pipeline was invoked on.
\<close>

fun evaluate_loop ::
  "pipeline \<Rightarrow> metric \<Rightarrow> example list \<Rightarrow> nat \<times> string list \<Rightarrow> nat \<times> string list" where
  "evaluate_loop pl metric [] acc = acc"
| "evaluate_loop pl metric (e # rest) (correct_count, calls) =
     evaluate_loop pl metric rest
       (case pl (riddle e) of
          Inl failed \<Rightarrow> (correct_count, calls @ [riddle e])
        | Inr p \<Rightarrow>
            (if metric (predicted_label p) (answer e) then correct_count + 1
             else correct_count,
             calls @ [riddle e]))"

text \<open>
  Modelled from the spec: \<^verbatim>\<open>evaluate(pipeline, subset, metric)\<close> returns
  \<^verbatim>\<open>correct_count / len(subset)\<close>, defined as 0 when the subset is empty. The scoring code
  of \<^verbatim>\<open>dspy.Evaluate\<close> is missing from the sources.
\<close>

definition evaluate :: "pipeline \<Rightarrow> example list \<Rightarrow> metric \<Rightarrow> rat" where
  "evaluate pl examples metric =
     (if examples = [] then 0
      else of_nat (fst (evaluate_loop pl metric examples (0, []))) / of_nat (length examples))"

text \<open>
  Modelled from the spec: the inputs on which one evaluation invokes the pipeline, in
  order; the library's per-example trace is missing from the sources.
\<close>

definition evaluate_calls :: "pipeline \<Rightarrow> example list \<Rightarrow> metric \<Rightarrow> string list" where
  "evaluate_calls pl examples metric = snd (evaluate_loop pl metric examples (0, []))"

text \<open>
  Modelled from the spec: an example counts as correct when the call succeeds and the metric
  accepts the predicted label for the expected one. The library's per-example scoring is
  missing from the sources.
\<close>

definition is_correct :: "pipeline \<Rightarrow> metric \<Rightarrow> example \<Rightarrow> bool" where
  "is_correct pl metric e =
     (case pl (riddle e) of Inl failed \<Rightarrow> False
      | Inr p \<Rightarrow> metric (predicted_label p) (answer e))"

text \<open>
  Two fixed-response pipelines: one that answers every riddle of a known list with that
  example's answer, and one that fails to parse on a single riddle.
\<close>

definition lookup_pipeline :: "example list \<Rightarrow> pipeline" where
  "lookup_pipeline known r =
     (case find (\<lambda>e. riddle e = r) known of
        None \<Rightarrow> Inl SchemaViolation
      | Some e \<Rightarrow> Inr \<lparr>rationale = [], predicted_label = answer e\<rparr>)"

definition failing_on :: "string \<Rightarrow> pipeline \<Rightarrow> pipeline" where
  "failing_on r0 pl r = (if r = r0 then Inl ParseError else pl r)"


section \<open>Arithmetic of the split sizes\<close>

lemma bit_length_0 [simp]: "bit_length 0 = 0"
  by (simp add: bit_length.simps)

lemma bit_length_Suc0 [simp]: "bit_length (Suc 0) = 1"
  by (simp add: bit_length.simps)

lemma bit_length_1 [simp]: "bit_length 1 = 1"
  by (simp add: bit_length.simps)

lemma bit_length_Bit0 [simp]:
  "bit_length (numeral (Num.Bit0 k)) = bit_length (numeral k) + 1"
  by (subst bit_length.simps) simp

lemma bit_length_Bit1 [simp]:
  "bit_length (numeral (Num.Bit1 k)) = bit_length (numeral k) + 1"
  by (subst bit_length.simps) simp

lemma bit_length_step: "n \<noteq> 0 \<Longrightarrow> bit_length n = Suc (bit_length (n div 2))"
  by (subst bit_length.simps) simp

lemma bit_length_upper: "n < 2 ^ bit_length n"
proof (induction n rule: bit_length.induct)
  case (1 n)
  show ?case
  proof (cases "n = 0")
    case True
    then show ?thesis by simp
  next
    case False
    with 1 have "n div 2 < 2 ^ bit_length (n div 2)" by simp
    then have "n < 2 * 2 ^ bit_length (n div 2)" by linarith
    then show ?thesis using False by (simp add: bit_length_step)
  qed
qed

lemma bit_length_le: "n < 2 ^ b \<Longrightarrow> bit_length n \<le> b"
proof (induction n arbitrary: b rule: bit_length.induct)
  case (1 n)
  show ?case
  proof (cases "n = 0")
    case True
    then show ?thesis by simp
  next
    case False
    then obtain b' where b: "b = Suc b'"
      using 1(2) by (cases b) auto
    have "n div 2 < 2 ^ b'" using 1(2) b by auto
    with 1(1) False have "bit_length (n div 2) \<le> b'" by simp
    then show ?thesis using b False by (simp add: bit_length_step)
  qed
qed

lemma round_half_even_0: "round_half_even N 0 = N"
  by (simp add: round_half_even_def)

lemma round_half_even_cases:
  "round_half_even N s = N div 2 ^ s \<or> round_half_even N s = N div 2 ^ s + 1"
  by (simp add: round_half_even_def Let_def)

text \<open>
  Rounding \<open>N\<close> at \<open>2 ^ s\<close> cannot leave the window \<open>[k * 2 ^ E, (k + 1) * 2 ^ E)\<close> when
  \<open>N\<close> is at least \<open>2 ^ s\<close> below the window's end.
\<close>

lemma round_div_window:
  assumes st: "s + t = E"
    and lo: "k * 2 ^ E \<le> N"
    and hi: "N + 2 ^ s < (k + 1) * 2 ^ E"
  shows "round_half_even N s div 2 ^ t = k"
proof -
  let ?q = "N div 2 ^ s"
  have E: "(2::nat) ^ E = 2 ^ t * 2 ^ s"
    unfolding st [symmetric] by (simp add: power_add)
  have "k * 2 ^ t * 2 ^ s \<le> N" using lo E by (simp add: mult.assoc)
  then have q_lo: "k * 2 ^ t \<le> ?q"
    by (simp add: less_eq_div_iff_mult_less_eq)
  have "N + 2 ^ s < ((k + 1) * 2 ^ t) * 2 ^ s" using hi E by (simp add: algebra_simps)
  then have q_hi: "?q + 1 < (k + 1) * 2 ^ t"
    using div_less_iff_less_mult [of "2 ^ s" "N + 2 ^ s" "(k + 1) * 2 ^ t"] by simp
  from round_half_even_cases [of N s] q_lo q_hi
  have "k * 2 ^ t \<le> round_half_even N s \<and> round_half_even N s < (k + 1) * 2 ^ t"
    by auto
  then show ?thesis
    by (intro div_nat_eqI) (simp_all add: mult.commute)
qed

text \<open>A value less than half a step below a grid point is rounded up to it.\<close>

lemma round_up_below_grid:
  assumes st: "s + t = E"
    and N: "N + m = G * 2 ^ E"
    and m0: "0 < m"
    and ms: "2 * m < 2 ^ s"
  shows "round_half_even N s = G * 2 ^ t"
proof -
  have E: "(2::nat) ^ E = 2 ^ t * 2 ^ s"
    unfolding st [symmetric] by (simp add: power_add)
  have G0: "0 < G * 2 ^ t"
  proof (rule ccontr)
    assume "\<not> 0 < G * 2 ^ t"
    then have "G = 0" by simp
    with N m0 show False by simp
  qed
  then obtain q where q: "G * 2 ^ t = Suc q"
    by (cases "G * 2 ^ t") auto
  have "N + m = Suc q * 2 ^ s" using N E q by (metis mult.assoc)
  then have Neq: "N = q * 2 ^ s + (2 ^ s - m)" using ms by simp
  have r: "2 ^ s - m < (2::nat) ^ s" using m0 by simp
  have d: "N div 2 ^ s = q" using Neq r by simp
  have md: "N mod 2 ^ s = 2 ^ s - m" using Neq r by simp
  have "2 ^ s < 2 * (2 ^ s - m)" using ms by simp
  then show ?thesis
    by (simp add: round_half_even_def Let_def d md q)
qed

lemma float_of_nat_exact:
  assumes "n < 2 ^ 53"
  shows "float_of_nat n = (n, 0)"
proof -
  have "bit_length n \<le> 53" using assms by (rule bit_length_le)
  then show ?thesis
    by (simp add: float_of_nat_def round53_def round_half_even_0)
qed

lemma py_int_mul_const:
  assumes n: "n < 2 ^ 53"
    and s: "bit_length (c * n) - 53 \<le> E"
  shows "py_int (float_mul (c, - int E) (float_of_nat n)) =
         round_half_even (c * n) (bit_length (c * n) - 53)
           div 2 ^ (E - (bit_length (c * n) - 53))"
proof -
  let ?s = "bit_length (c * n) - 53"
  have ex: "nat (int E - int ?s) = E - ?s" using s by simp
  show ?thesis
  proof (cases "?s = E")
    case True
    then show ?thesis
      by (simp add: float_of_nat_exact [OF n] float_mul_def round53_def py_int_def)
  next
    case False
    then have "\<not> 0 \<le> - int E + int ?s" using s by simp
    then show ?thesis
      by (simp add: float_of_nat_exact [OF n] float_mul_def round53_def py_int_def Let_def ex)
  qed
qed

text \<open>
  For every length below \<open>2 ^ 50\<close> the truncated double product is the integer quotient.
\<close>

lemma train_size_eq:
  assumes n: "n < 2 ^ 50"
  shows "train_size n = 3 * n div 5"
proof -
  define N where "N = 5404319552844595 * n"
  define s where "s = bit_length N - 53"
  define k where "k = 3 * n div 5"
  define j where "j = 3 * n mod 5"
  have n': "n < 1125899906842624" using n by simp
  have kj: "3 * n = 5 * k + j" and j5: "j < 5"
    by (simp_all add: k_def j_def)
  have N5: "5 * N + n = n * 27021597764222976"
    by (simp add: N_def)
  have "N < 2 ^ 103" using n' by (simp add: N_def)
  then have "bit_length N \<le> 103" by (rule bit_length_le)
  then have s50: "s \<le> 50" by (simp add: s_def)
  then have pow: "(2::nat) ^ s \<le> 2 ^ 50"
    by (intro power_increasing) simp_all
  define t where "t = 53 - s"
  have st: "s + t = 53" using s50 by (simp add: t_def)
  have "n < 2 ^ 53" using n' by simp
  then have ts: "train_size n = round_half_even N s div 2 ^ t"
    unfolding train_size_def float_0_6_def
    using py_int_mul_const [of n 5404319552844595 53] s50
    by (simp add: N_def s_def t_def)
  have "round_half_even N s div 2 ^ t = k"
  proof (cases "j = 0")
    case False
    have "k * 9007199254740992 \<le> N" using kj N5 n' False by linarith
    then have lo: "k * 2 ^ 53 \<le> N" by simp
    have "(2::nat) ^ s \<le> 1125899906842624" using pow by simp
    moreover have "j \<le> 4" using j5 by simp
    ultimately have "N + 2 ^ s < k * 9007199254740992 + 9007199254740992"
      using kj N5 by linarith
    then have hi: "N + 2 ^ s < (k + 1) * 2 ^ 53" by simp
    from st lo hi show ?thesis by (rule round_div_window)
  next
    case True
    with kj have k3: "3 * n = 5 * k" by simp
    then have "n mod 5 = 0" by presburger
    then obtain m where m1: "n = 5 * m" by auto
    with k3 have "k = 3 * m" by simp
    with m1 have m: "n = 5 * m" "k = 3 * m" by simp_all
    show ?thesis
    proof (cases "m = 0")
      case True
      then show ?thesis using m by (simp add: N_def round_half_even_def)
    next
      case False
      have Nm: "N + m = k * 2 ^ 53" using m by (simp add: N_def)
      have "N < 2 ^ bit_length N" by (rule bit_length_upper)
      moreover have "bit_length N \<le> s + 53" by (simp add: s_def)
      then have "(2::nat) ^ bit_length N \<le> 2 ^ (s + 53)"
        by (intro power_increasing) simp_all
      ultimately have "N < 2 ^ s * 2 ^ 53" by (simp add: power_add)
      then have ms: "2 * m < 2 ^ s" using m by (simp add: N_def)
      from False have m0: "0 < m" by simp
      have "round_half_even N s = k * 2 ^ t"
        using st Nm m0 ms by (rule round_up_below_grid)
      then show ?thesis by simp
    qed
  qed
  with ts show ?thesis by (simp add: k_def)
qed

lemma val_size_eq:
  assumes n: "n < 2 ^ 50"
  shows "val_size n = n div 5"
proof -
  define N where "N = 7205759403792794 * n"
  define s where "s = bit_length N - 53"
  define k where "k = n div 5"
  define j where "j = n mod 5"
  have n': "n < 1125899906842624" using n by simp
  have kj: "n = 5 * k + j" and j5: "j < 5"
    by (simp_all add: k_def j_def)
  have N5: "5 * N = n * 36028797018963970"
    by (simp add: N_def)
  have "N < 2 ^ 103" using n' by (simp add: N_def)
  then have "bit_length N \<le> 103" by (rule bit_length_le)
  then have s50: "s \<le> 50" by (simp add: s_def)
  then have pow: "(2::nat) ^ s \<le> 2 ^ 50"
    by (intro power_increasing) simp_all
  define t where "t = 55 - s"
  have st: "s + t = 55" using s50 by (simp add: t_def)
  have "n < 2 ^ 53" using n' by simp
  then have ts: "val_size n = round_half_even N s div 2 ^ t"
    unfolding val_size_def float_0_2_def
    using py_int_mul_const [of n 7205759403792794 55] s50
    by (simp add: N_def s_def t_def)
  have "k * 36028797018963968 \<le> N" using kj N5 by linarith
  then have lo: "k * 2 ^ 55 \<le> N" by simp
  have "(2::nat) ^ s \<le> 1125899906842624" using pow by simp
  moreover have "j \<le> 4" using j5 by simp
  ultimately have "N + 2 ^ s < k * 36028797018963968 + 36028797018963968"
    using kj N5 n' by linarith
  then have hi: "N + 2 ^ s < (k + 1) * 2 ^ 55" by simp
  from st lo hi have "round_half_even N s div 2 ^ t = k" by (rule round_div_window)
  with ts show ?thesis by (simp add: k_def)
qed

text \<open>
  Some bound on the length is needed: at \<open>2 ^ 53 - 49\<close> the double product is rounded up
  to the next integer, and \<^verbatim>\<open>int(0.6 * n)\<close> is one more than the quotient.
\<close>

lemma train_size_near_2_53:
  "train_size 9007199254740943 = 5404319552844566
   \<and> 3 * 9007199254740943 div 5 = (5404319552844565 :: nat)"
proof -
  have "float_of_nat 9007199254740943 = (9007199254740943, 0)"
    by (simp add: float_of_nat_def round53_def round_half_even_0)
  then have "float_mul float_0_6 (float_of_nat 9007199254740943)
      = (5404319552844566, 0)"
    by (simp add: float_mul_def float_0_6_def round53_def round_half_even_def)
  then show ?thesis by (simp add: train_size_def py_int_def)
qed

lemma floor_six_tenths: "nat \<lfloor>0.6 * real n\<rfloor> = 3 * n div 5"
proof -
  have "0.6 * real n = real (3 * n) / real 5" by simp
  then have "\<lfloor>0.6 * real n\<rfloor> = int (3 * n div 5)"
    by (simp only: floor_divide_of_nat_eq)
  then show ?thesis by simp
qed

lemma floor_two_tenths: "nat \<lfloor>0.2 * real n\<rfloor> = n div 5"
proof -
  have "0.2 * real n = real n / real 5" by simp
  then have "\<lfloor>0.2 * real n\<rfloor> = int (n div 5)"
    by (simp only: floor_divide_of_nat_eq)
  then show ?thesis by simp
qed

lemma train_size_10: "train_size 10 = 6"
  using train_size_eq [of 10] by simp

lemma val_size_10: "val_size 10 = 2"
  using val_size_eq [of 10] by simp


section \<open>The split\<close>

lemma py_slice_take_drop: "py_slice xs a (a + b) = take b (drop a xs)"
  by (simp add: py_slice_def drop_take)

lemma train_cell_split:
  "train (cell_split st) = take (train_size (length (dspy_dataset st))) (dspy_dataset st)"
  by (simp add: cell_split_def Let_def)

lemma val_cell_split:
  "val (cell_split st) =
     take (val_size (length (dspy_dataset st)))
       (drop (train_size (length (dspy_dataset st))) (dspy_dataset st))"
  by (simp add: cell_split_def Let_def py_slice_take_drop)

lemma test_cell_split:
  "test (cell_split st) =
     drop (train_size (length (dspy_dataset st)) + val_size (length (dspy_dataset st)))
       (dspy_dataset st)"
  by (simp add: cell_split_def Let_def)

lemma dspy_dataset_cell_split: "dspy_dataset (cell_split st) = dspy_dataset st"
  by (simp add: cell_split_def Let_def)

lemma three_slices_append: "take a xs @ take b (drop a xs) @ drop (a + b) xs = xs"
proof -
  have "take b (drop a xs) @ drop (a + b) xs = drop a xs"
    by (metis add.commute append_take_drop_id drop_drop)
  then show ?thesis by simp
qed

lemma cell_split_append:
  "train (cell_split st) @ val (cell_split st) @ test (cell_split st) = dspy_dataset st"
  by (simp only: train_cell_split val_cell_split test_cell_split three_slices_append)

lemma dspy_dataset_partitioner:
  "dspy_dataset (partitioner lib st) =
     fst (random_shuffle lib (random_seed lib SEED) (dspy_dataset st))"
  by (simp add: partitioner_def dspy_dataset_cell_split cell_shuffle_def cell_seed_def
      split: prod.split)

lemma partitioner_append:
  "train (partitioner lib st) @ val (partitioner lib st) @ test (partitioner lib st) =
     dspy_dataset (partitioner lib st)"
  by (simp only: partitioner_def cell_split_append dspy_dataset_cell_split)

lemma partitioner_mset:
  "mset (train (partitioner lib st)) + mset (val (partitioner lib st))
     + mset (test (partitioner lib st)) = mset (dspy_dataset (partitioner lib st))"
proof -
  have "mset (train (partitioner lib st) @ val (partitioner lib st) @ test (partitioner lib st))
          = mset (dspy_dataset (partitioner lib st))"
    by (simp only: partitioner_append)
  then show ?thesis by (simp add: ac_simps)
qed

lemma shuffled_mset:
  "shuffle_permutes lib \<Longrightarrow>
     mset (dspy_dataset (partitioner lib st)) = mset (dspy_dataset st)"
  by (simp add: dspy_dataset_partitioner shuffle_permutes_def)

lemma shuffled_length:
  "shuffle_permutes lib \<Longrightarrow>
     length (dspy_dataset (partitioner lib st)) = length (dspy_dataset st)"
  by (metis shuffled_mset size_mset)

lemma shuffle_permutes_counter_library: "shuffle_permutes counter_library"
  by (simp add: shuffle_permutes_def counter_library_def)

lemma length_ten_examples: "length ten_examples = 10"
  by (simp add: ten_examples_def)

lemma partitioner_counter_ten:
  "partitioner counter_library (notebook_with g rows ten_examples) =
     \<lparr>rng = Suc SEED, dataset = rows, dspy_dataset = rev ten_examples,
      train = take 6 (rev ten_examples),
      val = take 2 (drop 6 (rev ten_examples)),
      test = drop 8 (rev ten_examples)\<rparr>"
  by (simp add: partitioner_def cell_split_def cell_shuffle_def cell_seed_def
      counter_library_def notebook_with_def Let_def py_slice_take_drop
      length_ten_examples train_size_10 val_size_10)

lemma train_size_2: "train_size 2 = 1"
  using train_size_eq [of 2] by simp

lemma val_size_2: "val_size 2 = 0"
  using val_size_eq [of 2] by simp

lemma length_twin_examples: "length twin_examples = 2"
  by (simp add: twin_examples_def)

lemma partitioner_counter_twin:
  "partitioner counter_library (notebook_with g rows twin_examples) =
     \<lparr>rng = Suc SEED, dataset = rows, dspy_dataset = rev twin_examples,
      train = take 1 (rev twin_examples),
      val = [],
      test = drop 1 (rev twin_examples)\<rparr>"
  by (simp add: partitioner_def cell_split_def cell_shuffle_def cell_seed_def
      counter_library_def notebook_with_def Let_def py_slice_take_drop
      length_twin_examples train_size_2 val_size_2)


section \<open>The partitioner\<close>

text \<open>
  Claim C2, as amended. For every library whose shuffle rearranges its argument (so for every
  seed and generator) and every dataset, the partitioner produces three subsets whose
  lengths sum to the size of the dataset and which together hold every example as often as
  the dataset does. When the examples of the dataset are pairwise different, the element
  sets of the three subsets are pairwise disjoint. Examples are compared by their fields,
  the riddle and the answer.
\<close>

theorem partition_covers_dataset:
  fixes lib :: "'g library" and st :: "'g notebook"
  defines "P \<equiv> partitioner lib st"
  assumes perm: "shuffle_permutes lib"
  shows "length (train P) + length (val P) + length (test P) = length (dspy_dataset st)
       \<and> mset (train P) + mset (val P) + mset (test P) = mset (dspy_dataset st)
       \<and> (distinct (dspy_dataset st) \<longrightarrow>
            set (train P) \<inter> set (val P) = {}
          \<and> set (train P) \<inter> set (test P) = {}
          \<and> set (val P) \<inter> set (test P) = {})"
proof -
  have app: "train P @ val P @ test P = dspy_dataset P"
    unfolding P_def by (rule partitioner_append)
  have ms: "mset (dspy_dataset P) = mset (dspy_dataset st)"
    unfolding P_def using perm by (rule shuffled_mset)
  have "mset (train P @ val P @ test P) = mset (dspy_dataset st)"
    by (simp only: app ms)
  then have m: "mset (train P) + mset (val P) + mset (test P) = mset (dspy_dataset st)"
    by (simp add: ac_simps)
  have "length (train P @ val P @ test P) = length (dspy_dataset st)"
    unfolding app using ms by (metis size_mset)
  then have l: "length (train P) + length (val P) + length (test P) = length (dspy_dataset st)"
    by simp
  have d: "set (train P) \<inter> set (val P) = {} \<and> set (train P) \<inter> set (test P) = {}
         \<and> set (val P) \<inter> set (test P) = {}" if "distinct (dspy_dataset st)"
  proof -
    from that ms have "distinct (dspy_dataset P)"
      by (metis mset_eq_imp_distinct_iff)
    then have "distinct (train P @ val P @ test P)" by (simp only: app)
    then show ?thesis by auto
  qed
  from l m d show ?thesis by blast
qed

text \<open>The theorem at the ten-example dataset, shuffled by the counter library.\<close>

theorem partition_covers_dataset_witness:
  "shuffle_permutes counter_library
   \<and> distinct (dspy_dataset (notebook_with 0 [] ten_examples))
   \<and> length (train (partitioner counter_library (notebook_with 0 [] ten_examples)))
     + length (val (partitioner counter_library (notebook_with 0 [] ten_examples)))
     + length (test (partitioner counter_library (notebook_with 0 [] ten_examples))) = 10
   \<and> set (train (partitioner counter_library (notebook_with 0 [] ten_examples)))
       \<inter> set (val (partitioner counter_library (notebook_with 0 [] ten_examples))) = {}
   \<and> set (train (partitioner counter_library (notebook_with 0 [] ten_examples)))
       \<inter> set (test (partitioner counter_library (notebook_with 0 [] ten_examples))) = {}
   \<and> set (val (partitioner counter_library (notebook_with 0 [] ten_examples)))
       \<inter> set (test (partitioner counter_library (notebook_with 0 [] ten_examples))) = {}"
proof -
  have d: "distinct (dspy_dataset (notebook_with 0 [] ten_examples))"
    by (simp add: notebook_with_def ten_examples_def ex_def)
  have n: "length (dspy_dataset (notebook_with 0 [] ten_examples)) = 10"
    by (simp add: notebook_with_def length_ten_examples)
  from partition_covers_dataset [OF shuffle_permutes_counter_library,
      of "notebook_with 0 [] ten_examples"] d n
  show ?thesis using shuffle_permutes_counter_library by simp
qed

text \<open>
  Without the condition the sets can overlap: of two equal examples one goes to the training
  subset and the other to the test subset (\<open>train_size 2 = 1\<close>, \<open>val_size 2 = 0\<close>).
\<close>

theorem partition_overlap_counterexample:
  "\<not> (set (train (partitioner counter_library (notebook_with 0 [] twin_examples)))
        \<inter> set (val (partitioner counter_library (notebook_with 0 [] twin_examples))) = {}
      \<and> set (train (partitioner counter_library (notebook_with 0 [] twin_examples)))
        \<inter> set (test (partitioner counter_library (notebook_with 0 [] twin_examples))) = {}
      \<and> set (val (partitioner counter_library (notebook_with 0 [] twin_examples)))
        \<inter> set (test (partitioner counter_library (notebook_with 0 [] twin_examples))) = {})"
  unfolding partitioner_counter_twin by (simp add: twin_examples_def)

text \<open>
  Claim C3. For a dataset of size \<open>n\<close> the partitioner slices the shuffled sequence into
  three contiguous ranges: the first \<open>\<lfloor>0.6 n\<rfloor>\<close> examples, the next \<open>\<lfloor>0.2 n\<rfloor>\<close> and the
  remaining \<open>n - \<lfloor>0.6 n\<rfloor> - \<lfloor>0.2 n\<rfloor>\<close>; a dataset of ten examples is split into sizes
  \<open>(6, 2, 2)\<close> (the seed is the notebook's \<open>SEED = 1208\<close>, and the sizes do not depend on
  it). The floors are those of the real numbers; the code computes them with doubles, which
  agree with them for every list length below \<open>2 ^ 50\<close>.
\<close>

theorem split_sizes:
  fixes lib :: "'g library" and st :: "'g notebook"
  defines "P \<equiv> partitioner lib st"
  assumes perm: "shuffle_permutes lib"
    and n: "n = length (dspy_dataset st)"
    and bound: "n < 2 ^ 50"
  shows "train P = take (nat \<lfloor>0.6 * real n\<rfloor>) (dspy_dataset P)
       \<and> val P = take (nat \<lfloor>0.2 * real n\<rfloor>) (drop (nat \<lfloor>0.6 * real n\<rfloor>) (dspy_dataset P))
       \<and> test P = drop (nat \<lfloor>0.6 * real n\<rfloor> + nat \<lfloor>0.2 * real n\<rfloor>) (dspy_dataset P)
       \<and> length (train P) = nat \<lfloor>0.6 * real n\<rfloor>
       \<and> length (val P) = nat \<lfloor>0.2 * real n\<rfloor>
       \<and> length (test P) = n - nat \<lfloor>0.6 * real n\<rfloor> - nat \<lfloor>0.2 * real n\<rfloor>
       \<and> (n = 10 \<longrightarrow> (length (train P), length (val P), length (test P)) = (6, 2, 2))"
proof -
  define sh where "sh = dspy_dataset P"
  define a where "a = nat \<lfloor>0.6 * real n\<rfloor>"
  define b where "b = nat \<lfloor>0.2 * real n\<rfloor>"
  have a3: "a = 3 * n div 5" unfolding a_def by (rule floor_six_tenths)
  have b1: "b = n div 5" unfolding b_def by (rule floor_two_tenths)
  have len: "length sh = n"
    using perm n by (simp add: sh_def P_def shuffled_length)
  have a: "train_size (length sh) = a"
    using bound by (simp only: len train_size_eq a3)
  have b: "val_size (length sh) = b"
    using bound by (simp only: len val_size_eq b1)
  have P: "P = cell_split (cell_shuffle lib (cell_seed lib st))"
    by (simp add: P_def partitioner_def)
  have sh: "sh = dspy_dataset (cell_shuffle lib (cell_seed lib st))"
    by (simp add: sh_def P dspy_dataset_cell_split)
  have tr: "train P = take a sh"
    unfolding a [symmetric] unfolding P sh by (rule train_cell_split)
  have va: "val P = take b (drop a sh)"
    unfolding a [symmetric] b [symmetric] unfolding P sh by (rule val_cell_split)
  have te: "test P = drop (a + b) sh"
    unfolding a [symmetric] b [symmetric] unfolding P sh by (rule test_cell_split)
  have le: "a + b \<le> n" unfolding a3 b1 by simp
  have ltr: "length (train P) = a"
    using le by (simp add: tr len)
  have lva: "length (val P) = b"
    using le by (simp add: va len)
  have lte: "length (test P) = n - a - b"
    by (simp add: te len)
  have ten: "n = 10 \<longrightarrow> (length (train P), length (val P), length (test P)) = (6, 2, 2)"
    by (simp add: ltr lva lte a3 b1)
  from tr va te ltr lva lte ten show ?thesis
    unfolding sh_def a_def b_def by blast
qed

text \<open>The scenario of ten examples.\<close>

theorem split_sizes_witness:
  "shuffle_permutes counter_library
   \<and> (10::nat) = length (dspy_dataset (notebook_with 0 [] ten_examples))
   \<and> (10::nat) < 2 ^ 50
   \<and> length (train (partitioner counter_library (notebook_with 0 [] ten_examples))) = 6
   \<and> length (val (partitioner counter_library (notebook_with 0 [] ten_examples))) = 2
   \<and> length (test (partitioner counter_library (notebook_with 0 [] ten_examples))) = 2"
proof -
  have n: "(10::nat) = length (dspy_dataset (notebook_with 0 [] ten_examples))"
    by (simp add: notebook_with_def length_ten_examples)
  have b: "(10::nat) < 2 ^ 50" by simp
  let ?P = "partitioner counter_library (notebook_with 0 [] ten_examples)"
  from split_sizes [OF shuffle_permutes_counter_library n b]
  have "(length (train ?P), length (val ?P), length (test ?P)) = (6, 2, 2)"
    by blast
  then show ?thesis using shuffle_permutes_counter_library n by simp
qed

text \<open>
  Claim C4. The partitioner is deterministic: two runs that start from the same ordering of
  \<^verbatim>\<open>dspy_dataset\<close> (and seed the generator with the same \<open>SEED\<close>) yield identical training,
  validation and test subsets, whatever the generator state and the other variables were
  before each run.
\<close>

theorem partitioner_deterministic:
  assumes "dspy_dataset st1 = dspy_dataset st2"
  shows "train (partitioner lib st1) = train (partitioner lib st2)
       \<and> val (partitioner lib st1) = val (partitioner lib st2)
       \<and> test (partitioner lib st1) = test (partitioner lib st2)"
  using assms
  by (simp add: partitioner_def cell_split_def cell_shuffle_def cell_seed_def Let_def
      split: prod.split)

text \<open>Two different notebooks holding the same dataset.\<close>

theorem partitioner_deterministic_witness:
  "dspy_dataset (notebook_with 0 [] ten_examples)
     = dspy_dataset ((notebook_with 7 [] ten_examples)\<lparr>train := twin_examples\<rparr>)
   \<and> notebook_with 0 [] ten_examples \<noteq> (notebook_with 7 [] ten_examples)\<lparr>train := twin_examples\<rparr>
   \<and> train (partitioner counter_library (notebook_with 0 [] ten_examples))
     = train (partitioner counter_library ((notebook_with 7 [] ten_examples)\<lparr>train := twin_examples\<rparr>))
   \<and> val (partitioner counter_library (notebook_with 0 [] ten_examples))
     = val (partitioner counter_library ((notebook_with 7 [] ten_examples)\<lparr>train := twin_examples\<rparr>))
   \<and> test (partitioner counter_library (notebook_with 0 [] ten_examples))
     = test (partitioner counter_library ((notebook_with 7 [] ten_examples)\<lparr>train := twin_examples\<rparr>))"
proof -
  have e: "dspy_dataset (notebook_with 0 [] ten_examples)
     = dspy_dataset ((notebook_with 7 [] ten_examples)\<lparr>train := twin_examples\<rparr>)"
    by (simp add: notebook_with_def)
  have ne: "notebook_with 0 [] ten_examples
      \<noteq> (notebook_with 7 [] ten_examples)\<lparr>train := twin_examples\<rparr>"
    by (simp add: notebook_with_def)
  from partitioner_deterministic [OF e, of counter_library] e ne
  show ?thesis by simp
qed

text \<open>
  Claim C10. The three subsets are order-preserving contiguous slices of the shuffled
  dataset: a prefix, the following range and the rest. Concatenating training, validation
  and test subsets gives back the shuffled dataset, element for element in the same order,
  so the split neither duplicates, drops nor reorders an element.
\<close>

theorem split_reconstructs_shuffled:
  fixes lib :: "'g library" and st :: "'g notebook"
  defines "P \<equiv> partitioner lib st"
  defines "a \<equiv> train_size (length (dspy_dataset P))"
  defines "b \<equiv> val_size (length (dspy_dataset P))"
  shows "dspy_dataset P = fst (random_shuffle lib (random_seed lib SEED) (dspy_dataset st))
       \<and> train P = take a (dspy_dataset P)
       \<and> val P = take b (drop a (dspy_dataset P))
       \<and> test P = drop (a + b) (dspy_dataset P)
       \<and> train P @ val P @ test P = dspy_dataset P
       \<and> mset (train P) + mset (val P) + mset (test P) = mset (dspy_dataset P)"
proof -
  have P: "P = cell_split (cell_shuffle lib (cell_seed lib st))"
    by (simp add: P_def partitioner_def)
  have ds: "dspy_dataset P = dspy_dataset (cell_shuffle lib (cell_seed lib st))"
    by (simp add: P dspy_dataset_cell_split)
  have "train P = take a (dspy_dataset P)"
    unfolding a_def ds unfolding P by (rule train_cell_split)
  moreover have "val P = take b (drop a (dspy_dataset P))"
    unfolding a_def b_def ds unfolding P by (rule val_cell_split)
  moreover have "test P = drop (a + b) (dspy_dataset P)"
    unfolding a_def b_def ds unfolding P by (rule test_cell_split)
  moreover have "dspy_dataset P =
      fst (random_shuffle lib (random_seed lib SEED) (dspy_dataset st))"
    unfolding P_def by (rule dspy_dataset_partitioner)
  moreover have "train P @ val P @ test P = dspy_dataset P"
    unfolding P_def by (rule partitioner_append)
  moreover have "mset (train P) + mset (val P) + mset (test P) = mset (dspy_dataset P)"
    unfolding P_def by (rule partitioner_mset)
  ultimately show ?thesis by simp
qed

text \<open>The concatenation for the ten-example dataset, which the counter library reverses.\<close>

theorem split_reconstructs_shuffled_witness:
  "train (partitioner counter_library (notebook_with 0 [] ten_examples))
     @ val (partitioner counter_library (notebook_with 0 [] ten_examples))
     @ test (partitioner counter_library (notebook_with 0 [] ten_examples))
   = rev ten_examples"
proof -
  let ?P = "partitioner counter_library (notebook_with 0 [] ten_examples)"
  have "train ?P @ val ?P @ test ?P = dspy_dataset ?P"
    using split_reconstructs_shuffled [of counter_library "notebook_with 0 [] ten_examples"]
    by blast
  then show ?thesis by (simp add: partitioner_counter_ten)
qed

section \<open>The downsampled harness\<close>

text \<open>Rounding moves a value by at most half a step.\<close>

lemma round_half_even_error:
  "2 * (round_half_even M u * 2 ^ u) \<le> 2 * M + 2 ^ u
   \<and> 2 * M \<le> 2 * (round_half_even M u * 2 ^ u) + 2 ^ u"
proof -
  define q where "q = M div 2 ^ u"
  define r where "r = M mod 2 ^ u"
  define p where "p = q * 2 ^ u"
  have M: "M = p + r"
    using div_mult_mod_eq [of M "2 ^ u"] by (simp add: q_def r_def p_def)
  have r: "r < 2 ^ u" by (simp add: r_def)
  have up: "(q + 1) * 2 ^ u = p + 2 ^ u" by (simp add: p_def algebra_simps)
  show ?thesis
  proof (cases "2 ^ u < 2 * r \<or> (2 * r = 2 ^ u \<and> odd q)")
    case True
    then have "round_half_even M u * 2 ^ u = p + 2 ^ u"
      using up by (simp add: round_half_even_def Let_def q_def r_def)
    then show ?thesis using True M r by auto
  next
    case False
    then have "round_half_even M u * 2 ^ u = p"
      by (simp add: round_half_even_def Let_def q_def r_def p_def)
    then show ?thesis using False M r by auto
  qed
qed

lemma py_round_mul_const:
  assumes n: "n < 2 ^ 53"
    and s: "bit_length (c * n) - 53 \<le> E"
  shows "py_round (float_mul (c, - int E) (float_of_nat n)) =
         round_half_even (round_half_even (c * n) (bit_length (c * n) - 53))
           (E - (bit_length (c * n) - 53))"
proof -
  let ?s = "bit_length (c * n) - 53"
  have ex: "nat (int E - int ?s) = E - ?s" using s by simp
  show ?thesis
  proof (cases "?s = E")
    case True
    then show ?thesis
      by (simp add: float_of_nat_exact [OF n] float_mul_def round53_def py_round_def
          round_half_even_0)
  next
    case False
    then have "\<not> 0 \<le> - int E + int ?s" using s by simp
    then show ?thesis
      by (simp add: float_of_nat_exact [OF n] float_mul_def round53_def py_round_def Let_def ex)
  qed
qed

text \<open>\<^verbatim>\<open>round(0.1 * n)\<close> is within half a unit of a tenth of \<open>n\<close>.\<close>

lemma round_tenth:
  assumes n: "n < 2 ^ 50"
  defines "k \<equiv> py_round (float_mul float_0_1 (float_of_nat n))"
  shows "10 * k \<le> n + 5 \<and> n \<le> 10 * k + 5"
proof -
  define N where "N = 7205759403792794 * n"
  define s where "s = bit_length N - 53"
  define t where "t = 56 - s"
  define q where "q = round_half_even N s"
  define R where "R = q * 2 ^ s"
  define K where "K = k * 72057594037927936"
  have n': "n < 1125899906842624" using n by simp
  have N10: "10 * N = n * 72057594037927936 + 4 * n"
    by (simp add: N_def)
  have "N < 2 ^ 103" using n' by (simp add: N_def)
  then have "bit_length N \<le> 103" by (rule bit_length_le)
  then have s50: "s \<le> 50" by (simp add: s_def)
  then have "(2::nat) ^ s \<le> 2 ^ 50"
    by (intro power_increasing) simp_all
  then have pow: "(2::nat) ^ s \<le> 1125899906842624" by simp
  have st: "2 ^ t * 2 ^ s = (72057594037927936::nat)"
  proof -
    have "t + s = 56" using s50 by (simp add: t_def)
    then have "(2::nat) ^ t * 2 ^ s = 2 ^ 56" by (simp flip: power_add)
    then show ?thesis by simp
  qed
  have "n < 2 ^ 53" using n' by simp
  then have k: "k = round_half_even q t"
    unfolding k_def float_0_1_def
    using py_round_mul_const [of n 7205759403792794 56] s50
    by (simp add: N_def s_def t_def q_def)
  have e1: "2 * R \<le> 2 * N + 2 ^ s \<and> 2 * N \<le> 2 * R + 2 ^ s"
    unfolding R_def q_def by (rule round_half_even_error)
  have e2: "2 * (k * 2 ^ t) \<le> 2 * q + 2 ^ t \<and> 2 * q \<le> 2 * (k * 2 ^ t) + 2 ^ t"
    unfolding k by (rule round_half_even_error)
  have Kt: "k * 2 ^ t * 2 ^ s = K"
    using st by (simp add: K_def mult.assoc)
  from e2 have "2 * (k * 2 ^ t) * 2 ^ s \<le> (2 * q + 2 ^ t) * 2 ^ s"
    by (intro mult_le_mono1) simp
  then have a: "2 * K \<le> 2 * R + 72057594037927936"
    using Kt st by (simp add: R_def algebra_simps)
  from e2 have "2 * q * 2 ^ s \<le> (2 * (k * 2 ^ t) + 2 ^ t) * 2 ^ s"
    by (intro mult_le_mono1) simp
  then have b: "2 * R \<le> 2 * K + 72057594037927936"
    using Kt st by (simp add: R_def algebra_simps)
  have "10 * k \<le> n + 5"
  proof (rule ccontr)
    assume "\<not> 10 * k \<le> n + 5"
    then have "n + 6 \<le> 10 * k" by simp
    then have "(n + 6) * 72057594037927936 \<le> 10 * k * 72057594037927936"
      by (intro mult_le_mono1)
    then have "n * 72057594037927936 + 6 * 72057594037927936 \<le> 10 * K"
      by (simp add: K_def algebra_simps)
    with a e1 N10 pow n' show False by linarith
  qed
  moreover have "n \<le> 10 * k + 5"
  proof (rule ccontr)
    assume "\<not> n \<le> 10 * k + 5"
    then have "10 * k + 6 \<le> n" by simp
    then have "(10 * k + 6) * 72057594037927936 \<le> n * 72057594037927936"
      by (intro mult_le_mono1)
    then have "10 * K + 6 * 72057594037927936 \<le> n * 72057594037927936"
      by (simp add: K_def algebra_simps)
    with b e1 N10 pow n' show False by linarith
  qed
  ultimately show ?thesis by simp
qed

lemma create_dataset_map: "create_dataset rows = map make_example rows"
proof -
  have "foldl (\<lambda>acc r. acc @ [make_example r]) acc rows = acc @ map make_example rows"
    for acc
    by (induction rows arbitrary: acc) simp_all
  then show ?thesis by (simp add: create_dataset_def)
qed

lemma make_example_piano_row:
  "make_example piano_row = ex ''What has keys but no locks?: A. door, B. piano'' ''B''"
  by (simp add: make_example_def answer_choices_def piano_row_def ex_def)

lemma dataset_cell_split: "dataset (cell_split st) = dataset st"
  by (simp add: cell_split_def Let_def)

lemma dataset_cell_shuffle: "dataset (cell_shuffle lib st) = dataset st"
  by (simp add: cell_shuffle_def split: prod.split)

lemma harness_partitioner:
  "harness lib st = partitioner lib (cell_create (cell_sample lib st))"
  by (simp add: harness_def partitioner_def cell_create_def cell_sample_def cell_seed_def
      cell_shuffle_def)

lemma dataset_harness:
  "dataset (harness lib st) = df_sample lib float_0_1 SEED (dataset st)"
  by (simp add: harness_def dataset_cell_split dataset_cell_shuffle cell_create_def
      cell_sample_def cell_seed_def)

lemma dataset_partitioner: "dataset (partitioner lib st) = dataset st"
  by (simp add: partitioner_def dataset_cell_split dataset_cell_shuffle cell_seed_def)

lemma harness_input:
  "dspy_dataset (cell_create (cell_sample lib st)) =
     map make_example (df_sample lib float_0_1 SEED (dataset st))"
  by (simp add: cell_create_def cell_sample_def create_dataset_map)

lemma round_tenth_20: "py_round (float_mul float_0_1 (float_of_nat 20)) = 2"
  apply (simp add: float_of_nat_def float_0_1_def round53_def)
  apply (simp add: float_mul_def round53_def)
  apply (simp add: round_half_even_def py_round_def)
  done

lemma length_twenty_rows: "length twenty_rows = 20"
  by (simp add: twenty_rows_def)

lemma sample_counter_twenty:
  "df_sample counter_library float_0_1 s twenty_rows = [piano_row, piano_row]"
  by (simp add: counter_library_def length_twenty_rows round_tenth_20)
    (simp add: twenty_rows_def numeral_eq_Suc)

lemma harness_deterministic:
  assumes "dataset st' = dataset st"
  shows "dataset (harness lib st') = dataset (harness lib st)
       \<and> train (harness lib st') = train (harness lib st)
       \<and> val (harness lib st') = val (harness lib st)
       \<and> test (harness lib st') = test (harness lib st)"
  using assms
  by (simp add: harness_def cell_split_def cell_shuffle_def cell_create_def cell_sample_def
      cell_seed_def Let_def split: prod.split)

text \<open>
  Claim C9. Before any shuffling or partitioning the notebook replaces the loaded data frame
  by \<^verbatim>\<open>dataset.sample(frac=0.1, random_state=SEED)\<close> with \<open>SEED = 1208\<close>, and the three
  subsets are built from exactly the sampled rows. The library draws
  \<^verbatim>\<open>round(frac * len(dataset))\<close> rows (the premise on the size), so the subsets together
  hold a tenth of the loaded rows up to rounding, \<open>|10 k - n| \<le> 5\<close>. Runs that start from
  the same loaded data frame select the same rows and build the same subsets.
\<close>

theorem harness_runs_on_downsample:
  fixes lib :: "'g library" and st :: "'g notebook"
  defines "H \<equiv> harness lib st"
  defines "sampled \<equiv> df_sample lib float_0_1 1208 (dataset st)"
  assumes perm: "shuffle_permutes lib"
    and size: "length sampled =
                 py_round (float_mul float_0_1 (float_of_nat (length (dataset st))))"
    and bound: "length (dataset st) < 2 ^ 50"
  shows "dataset H = sampled
       \<and> mset (train H) + mset (val H) + mset (test H) = mset (map make_example sampled)
       \<and> 10 * (length (train H) + length (val H) + length (test H)) \<le> length (dataset st) + 5
       \<and> length (dataset st) \<le> 10 * (length (train H) + length (val H) + length (test H)) + 5
       \<and> (\<forall>st'. dataset st' = dataset st \<longrightarrow>
             dataset (harness lib st') = dataset H
           \<and> train (harness lib st') = train H
           \<and> val (harness lib st') = val H
           \<and> test (harness lib st') = test H)"
proof -
  define st0 where "st0 = cell_create (cell_sample lib st)"
  have H: "H = partitioner lib st0"
    by (simp add: H_def st0_def harness_partitioner)
  have inp: "dspy_dataset st0 = map make_example sampled"
    by (simp add: st0_def sampled_def harness_input SEED_def)
  have d: "dataset H = sampled"
    by (simp add: H_def sampled_def dataset_harness SEED_def)
  have "mset (train H) + mset (val H) + mset (test H) = mset (dspy_dataset H)"
    unfolding H by (rule partitioner_mset)
  also have "\<dots> = mset (dspy_dataset st0)"
    unfolding H using perm by (rule shuffled_mset)
  finally have m: "mset (train H) + mset (val H) + mset (test H) = mset (map make_example sampled)"
    by (simp only: inp)
  then have "size (mset (train H) + mset (val H) + mset (test H)) = length sampled"
    by simp
  then have l: "length (train H) + length (val H) + length (test H) =
      py_round (float_mul float_0_1 (float_of_nat (length (dataset st))))"
    by (simp add: size)
  have r: "10 * (length (train H) + length (val H) + length (test H)) \<le> length (dataset st) + 5
       \<and> length (dataset st) \<le> 10 * (length (train H) + length (val H) + length (test H)) + 5"
    unfolding l using bound by (rule round_tenth)
  have det: "\<forall>st'. dataset st' = dataset st \<longrightarrow>
             dataset (harness lib st') = dataset H
           \<and> train (harness lib st') = train H
           \<and> val (harness lib st') = val H
           \<and> test (harness lib st') = test H"
    unfolding H_def using harness_deterministic by blast
  from d m r det show ?thesis by blast
qed

text \<open>Twenty loaded rows: two are sampled, and the subsets hold two examples.\<close>

theorem harness_runs_on_downsample_witness:
  "shuffle_permutes counter_library
   \<and> length (df_sample counter_library float_0_1 1208 (dataset (notebook_with 0 twenty_rows [])))
       = py_round (float_mul float_0_1
           (float_of_nat (length (dataset (notebook_with 0 twenty_rows [])))))
   \<and> length (dataset (notebook_with 0 twenty_rows [])) < 2 ^ 50
   \<and> dataset (harness counter_library (notebook_with 0 twenty_rows [])) = [piano_row, piano_row]
   \<and> length (train (harness counter_library (notebook_with 0 twenty_rows [])))
     + length (val (harness counter_library (notebook_with 0 twenty_rows [])))
     + length (test (harness counter_library (notebook_with 0 twenty_rows []))) = 2"
proof -
  let ?st = "notebook_with 0 twenty_rows []"
  let ?H = "harness counter_library ?st"
  have ds: "dataset ?st = twenty_rows" by (simp add: notebook_with_def)
  have size: "length (df_sample counter_library float_0_1 1208 (dataset ?st))
       = py_round (float_mul float_0_1 (float_of_nat (length (dataset ?st))))"
    by (simp add: ds sample_counter_twenty length_twenty_rows round_tenth_20)
  have bound: "length (dataset ?st) < 2 ^ 50"
    by (simp add: ds length_twenty_rows)
  from harness_runs_on_downsample [OF shuffle_permutes_counter_library size bound]
  have "dataset ?H = df_sample counter_library float_0_1 1208 (dataset ?st)"
    and "mset (train ?H) + mset (val ?H) + mset (test ?H) =
      mset (map make_example (df_sample counter_library float_0_1 1208 (dataset ?st)))"
    by blast+
  then have "dataset ?H = [piano_row, piano_row]"
    and "size (mset (train ?H) + mset (val ?H) + mset (test ?H)) = 2"
    by (simp_all add: ds sample_counter_twenty)
  then show ?thesis
    using shuffle_permutes_counter_library size bound by simp
qed


section \<open>Properties of the evaluator\<close>

lemma evaluate_loop_closed:
  "evaluate_loop pl metric examples (c, calls) =
     (c + length (filter (is_correct pl metric) examples), calls @ map riddle examples)"
  by (induction examples arbitrary: c calls)
    (auto simp: is_correct_def split: sum.splits)

lemma evaluate_closed:
  "evaluate pl examples metric =
     of_nat (length (filter (is_correct pl metric) examples)) / of_nat (length examples)"
  by (simp add: evaluate_def evaluate_loop_closed)

lemma evaluate_calls_closed: "evaluate_calls pl examples metric = map riddle examples"
  by (simp add: evaluate_calls_def evaluate_loop_closed)

lemma count_split_at:
  assumes "i < length xs"
  shows "length (filter P xs) =
         length (filter P (take i xs)) + (if P (xs ! i) then 1 else 0)
           + length (filter P (drop (Suc i) xs))"
proof -
  have "xs = take i xs @ xs ! i # drop (Suc i) xs"
    using assms by (rule id_take_nth_drop)
  then have "filter P xs = filter P (take i xs @ xs ! i # drop (Suc i) xs)"
    by simp
  then show ?thesis by (simp del: append_take_drop_id)
qed

lemma filter_others_cong:
  assumes "i < length xs"
    and "\<forall>j<length xs. j \<noteq> i \<longrightarrow> P (xs ! j) = Q (xs ! j)"
  shows "filter P (take i xs) = filter Q (take i xs)"
    and "filter P (drop (Suc i) xs) = filter Q (drop (Suc i) xs)"
proof -
  show "filter P (take i xs) = filter Q (take i xs)"
  proof (rule filter_cong [OF refl])
    fix x assume "x \<in> set (take i xs)"
    then obtain j where "j < i" "x = xs ! j"
      using assms(1) by (auto simp: in_set_conv_nth)
    with assms show "P x = Q x" by simp
  qed
  show "filter P (drop (Suc i) xs) = filter Q (drop (Suc i) xs)"
  proof (rule filter_cong [OF refl])
    fix x assume "x \<in> set (drop (Suc i) xs)"
    then obtain j where "j < length xs - Suc i" "x = xs ! (Suc i + j)"
      by (auto simp: in_set_conv_nth)
    with assms show "P x = Q x" by simp
  qed
qed

lemma lookup_ten_correct:
  "\<forall>e\<in>set ten_examples. \<exists>p. lookup_pipeline ten_examples (riddle e) = Inr p
      \<and> predicted_label p = answer e"
  by (simp add: ten_examples_def lookup_pipeline_def ex_def)

lemma failing_r1_bad:
  "failing_on ''r1'' (lookup_pipeline ten_examples) (riddle (ten_examples ! 1)) = Inl ParseError"
  by (simp add: failing_on_def ten_examples_def ex_def)

lemma less_ten_cases:
  "j < (10::nat) \<longleftrightarrow> j = 0 \<or> j = 1 \<or> j = 2 \<or> j = 3 \<or> j = 4 \<or> j = 5 \<or> j = 6 \<or> j = 7
     \<or> j = 8 \<or> j = 9"
  by arith

lemma failing_r1_same:
  "\<forall>j<length ten_examples. j \<noteq> 1 \<longrightarrow>
     lookup_pipeline ten_examples (riddle (ten_examples ! j))
       = failing_on ''r1'' (lookup_pipeline ten_examples) (riddle (ten_examples ! j))"
  unfolding length_ten_examples less_ten_cases
  by (auto simp: failing_on_def ten_examples_def ex_def)

lemma failing_r1_others_correct:
  "\<forall>j<length ten_examples. j \<noteq> 1 \<longrightarrow>
     is_correct (failing_on ''r1'' (lookup_pipeline ten_examples)) exact_match (ten_examples ! j)"
  unfolding length_ten_examples less_ten_cases
  by (auto simp: is_correct_def failing_on_def lookup_pipeline_def exact_match_def
      ten_examples_def ex_def)

text \<open>
  Claim C1, as amended. For every pipeline, subset and metric, the evaluator invokes the
  pipeline on every example of the subset, in order, and returns the number of examples
  whose predicted label the metric accepts for the expected label, divided by the size of
  the subset (a quotient by zero is 0 in HOL, as the score of the empty subset is). With
  the exact-match metric the score of a non-empty subset is 1 if every prediction equals
  its expected label, and the score is 0 if none does.
\<close>

theorem evaluate_is_accuracy:
  "evaluate pl examples metric =
     of_nat (length (filter (is_correct pl metric) examples)) / of_nat (length examples)
   \<and> evaluate_calls pl examples metric = map riddle examples
   \<and> (examples \<noteq> [] \<and>
        (\<forall>e\<in>set examples. \<exists>p. pl (riddle e) = Inr p \<and> predicted_label p = answer e)
        \<longrightarrow> evaluate pl examples exact_match = 1)
   \<and> ((\<forall>e\<in>set examples. \<forall>p. pl (riddle e) = Inr p \<longrightarrow> predicted_label p \<noteq> answer e)
        \<longrightarrow> evaluate pl examples exact_match = 0)"
proof -
  have all: "evaluate pl examples exact_match = 1"
    if ne: "examples \<noteq> []"
      and ok: "\<forall>e\<in>set examples. \<exists>p. pl (riddle e) = Inr p \<and> predicted_label p = answer e"
  proof -
    have "\<forall>e\<in>set examples. is_correct pl exact_match e"
      using ok by (auto simp: is_correct_def exact_match_def)
    then have "filter (is_correct pl exact_match) examples = examples"
      by (simp add: filter_id_conv)
    then show ?thesis using ne by (simp add: evaluate_closed)
  qed
  have none: "evaluate pl examples exact_match = 0"
    if no: "\<forall>e\<in>set examples. \<forall>p. pl (riddle e) = Inr p \<longrightarrow> predicted_label p \<noteq> answer e"
  proof -
    have "\<forall>e\<in>set examples. \<not> is_correct pl exact_match e"
      using no by (auto simp: is_correct_def exact_match_def split: sum.splits)
    then have "filter (is_correct pl exact_match) examples = []"
      by (simp add: filter_empty_conv)
    then show ?thesis by (simp add: evaluate_closed)
  qed
  from all none show ?thesis
    by (simp only: evaluate_closed [of pl examples metric] evaluate_calls_closed) blast
qed

text \<open>A pipeline that answers all ten examples correctly scores 1.\<close>

theorem evaluate_is_accuracy_witness:
  "ten_examples \<noteq> []
   \<and> evaluate (lookup_pipeline ten_examples) ten_examples exact_match = 1
   \<and> evaluate_calls (lookup_pipeline ten_examples) ten_examples exact_match
       = map riddle ten_examples"
proof -
  have ne: "ten_examples \<noteq> []" by (simp add: ten_examples_def)
  from evaluate_is_accuracy [of "lookup_pipeline ten_examples" ten_examples exact_match]
    ne lookup_ten_correct
  show ?thesis by blast
qed

text \<open>
  On the empty subset every prediction matches, there being none, and the score is 0,
  not 1.
\<close>

theorem evaluate_all_match_empty_counterexample:
  "evaluate (lookup_pipeline ten_examples) [] exact_match \<noteq> 1"
  by (simp add: evaluate_def)

text \<open>
  Claim C6. A model output that fails to parse, at position \<open>i\<close> of a subset of size \<open>k\<close>,
  is an incorrect prediction and not a fatal error: the pipeline is still invoked on all
  \<open>k\<close> examples, the score is the number of correct ones among the other \<open>k - 1\<close> divided
  by \<open>k\<close>, and it lies at most \<open>1 / k\<close> below the score of any pipeline \<open>pl'\<close> that gives the
  same outputs on the other examples; when all the others are correct it is \<open>1 - 1 / k\<close>.
  Nothing is required of \<open>k\<close> beyond \<open>i < k\<close>, so the subsets of size \<open>k > 1\<close> are covered.
\<close>

theorem malformed_output_costs_one:
  assumes i: "i < length examples"
    and bad: "pl (riddle (examples ! i)) = Inl failed"
    and same: "\<forall>j<length examples. j \<noteq> i \<longrightarrow>
                 pl' (riddle (examples ! j)) = pl (riddle (examples ! j))"
  shows "evaluate_calls pl examples metric = map riddle examples
       \<and> evaluate pl examples metric =
           of_nat (length (filter (is_correct pl metric)
                     (take i examples @ drop (Suc i) examples)))
             / of_nat (length examples)
       \<and> evaluate pl' examples metric - 1 / of_nat (length examples)
           \<le> evaluate pl examples metric
       \<and> evaluate pl examples metric \<le> evaluate pl' examples metric
       \<and> ((\<forall>j<length examples. j \<noteq> i \<longrightarrow> is_correct pl metric (examples ! j))
            \<longrightarrow> evaluate pl examples metric = 1 - 1 / of_nat (length examples))"
proof -
  define k where "k = length examples"
  define a where "a = length (filter (is_correct pl metric) (take i examples))"
  define b where "b = length (filter (is_correct pl metric) (drop (Suc i) examples))"
  define x where "x = (if is_correct pl' metric (examples ! i) then 1 else 0 :: nat)"
  have k0: "0 < k" using i by (cases examples) (simp_all add: k_def)
  have nbad: "\<not> is_correct pl metric (examples ! i)"
    using bad by (simp add: is_correct_def)
  have cong: "\<forall>j<length examples. j \<noteq> i \<longrightarrow>
      is_correct pl' metric (examples ! j) = is_correct pl metric (examples ! j)"
    using same by (simp add: is_correct_def)
  have c: "length (filter (is_correct pl metric) examples) = a + b"
    using count_split_at [OF i, of "is_correct pl metric"] nbad by (simp add: a_def b_def)
  have c': "length (filter (is_correct pl' metric) examples) = a + x + b"
    using count_split_at [OF i, of "is_correct pl' metric"]
      filter_others_cong [OF i cong]
    by (simp add: a_def b_def x_def)
  have s: "evaluate pl examples metric = of_nat (a + b) / of_nat k"
    by (simp only: evaluate_closed c k_def)
  have s': "evaluate pl' examples metric = of_nat (a + x + b) / of_nat k"
    by (simp only: evaluate_closed c' k_def)
  have x1: "x \<le> 1" by (simp add: x_def)
  have rest: "evaluate pl examples metric =
      of_nat (length (filter (is_correct pl metric) (take i examples @ drop (Suc i) examples)))
        / of_nat (length examples)"
    by (simp add: s a_def b_def k_def)
  have lo: "evaluate pl' examples metric - 1 / of_nat k \<le> evaluate pl examples metric"
  proof -
    have "(of_nat (a + x + b) :: rat) - 1 \<le> of_nat (a + b)" using x1 by simp
    then have "((of_nat (a + x + b) :: rat) - 1) / of_nat k \<le> of_nat (a + b) / of_nat k"
      by (rule divide_right_mono) simp
    then show ?thesis by (simp add: s s' diff_divide_distrib)
  qed
  have hi: "evaluate pl examples metric \<le> evaluate pl' examples metric"
  proof -
    have "(of_nat (a + b) :: rat) \<le> of_nat (a + x + b)" by simp
    then have "(of_nat (a + b) :: rat) / of_nat k \<le> of_nat (a + x + b) / of_nat k"
      by (rule divide_right_mono) simp
    then show ?thesis by (simp only: s s')
  qed
  have others: "evaluate pl examples metric = 1 - 1 / of_nat k"
    if ok: "\<forall>j<length examples. j \<noteq> i \<longrightarrow> is_correct pl metric (examples ! j)"
  proof -
    have "\<forall>e\<in>set (take i examples). is_correct pl metric e"
      using ok i by (auto simp: in_set_conv_nth)
    then have "a = i" using i by (simp add: a_def filter_id_conv)
    moreover have "\<forall>e\<in>set (drop (Suc i) examples). is_correct pl metric e"
      using ok i by (auto simp: in_set_conv_nth)
    then have "b = k - Suc i" by (simp add: b_def k_def filter_id_conv)
    ultimately have "a + b + 1 = k" using i by (simp add: k_def)
    then have "(of_nat (a + b) :: rat) = of_nat k - 1"
      by (metis add_diff_cancel_right' of_nat_1 of_nat_add)
    then show ?thesis using k0 by (simp add: s diff_divide_distrib)
  qed
  from evaluate_calls_closed rest lo hi others show ?thesis
    unfolding k_def by blast
qed

text \<open>Ten examples, the second of which fails to parse: the score is nine tenths.\<close>

theorem malformed_output_costs_one_witness:
  "(1::nat) < length ten_examples
   \<and> failing_on ''r1'' (lookup_pipeline ten_examples) (riddle (ten_examples ! 1)) = Inl ParseError
   \<and> evaluate (failing_on ''r1'' (lookup_pipeline ten_examples)) ten_examples exact_match = 9 / 10
   \<and> evaluate (lookup_pipeline ten_examples) ten_examples exact_match - 1 / 10
       \<le> evaluate (failing_on ''r1'' (lookup_pipeline ten_examples)) ten_examples exact_match"
proof -
  have i: "(1::nat) < length ten_examples" by (simp add: length_ten_examples)
  from malformed_output_costs_one [OF i failing_r1_bad failing_r1_same, of exact_match]
    failing_r1_others_correct
  have "evaluate (failing_on ''r1'' (lookup_pipeline ten_examples)) ten_examples exact_match
          = 1 - 1 / of_nat (length ten_examples)"
    and "evaluate (lookup_pipeline ten_examples) ten_examples exact_match
           - 1 / of_nat (length ten_examples)
          \<le> evaluate (failing_on ''r1'' (lookup_pipeline ten_examples)) ten_examples exact_match"
    by blast+
  then show ?thesis using i failing_r1_bad by (simp add: length_ten_examples)
qed

end
